theory Spec2Isabelle
  imports Main "HOL-Library.Multiset"
begin

section \<open>Values, documents and dashboard state\<close>

text \<open>
  \<^verbatim>\<open>OrderFulfillmentDashboard.jsx\<close> holds three versions of the \<^verbatim>\<open>App\<close> component.
  This theory follows the last one, the collaborative dashboard with
  \<^verbatim>\<open>STATUS_OPTIONS\<close>, \<^verbatim>\<open>filteredOrders\<close> and \<^verbatim>\<open>AddOrderForm\<close>. It keeps plain
  JavaScript objects in React state. A field value is one of the values Firestore
  delivers or the component builds itself:
  \<^item> \<open>JTimestamp s n\<close> is a Firestore \<^verbatim>\<open>Timestamp\<close> with its \<^verbatim>\<open>seconds\<close> and
    \<^verbatim>\<open>nanoseconds\<close> (the seconds of a Firestore timestamp, times 1000, are always
    within the range of a Date);
  \<^item> \<open>JDate (Some ms)\<close> is a \<^verbatim>\<open>Date\<close> at \<open>ms\<close> milliseconds since the epoch and
    \<open>JDate None\<close> is an Invalid Date, whose \<^verbatim>\<open>getTime()\<close> is NaN;
  \<^item> \<open>JOpaque\<close> stands for an array or a map that has no property named
    \<^verbatim>\<open>seconds\<close>, kept as its text.

  Numbers are integers here; \<^verbatim>\<open>parseFloat\<close>, the one place where the component
  computes a fraction, is a parameter of the model.
\<close>

datatype jsval =
    JNull
  | JBool bool
  | JNum int
  | JStr string
  | JTimestamp int int
  | JDate "int option"
  | JOpaque string

text \<open>
  An object is a finite map from property names to values; reading a property that is
  not there gives \<open>None\<close>, JavaScript's \<^verbatim>\<open>undefined\<close>. Object spread
  \<^verbatim>\<open>{...a, ...b}\<close> is \<open>a ++ b\<close>: the later object wins.
\<close>

type_synonym jsobj = "string \<rightharpoonup> jsval"

text \<open>A document of a snapshot: \<^verbatim>\<open>doc.id\<close> and \<^verbatim>\<open>doc.data()\<close>.\<close>

record doc =
  doc_id :: string
  doc_data :: jsobj

text \<open>
  One snapshot delivery: \<^verbatim>\<open>snapshot.docs\<close>, and what \<^verbatim>\<open>new Date()\<close> reads while the
  callback handles the document at each index (the callback evaluates
  \<^verbatim>\<open>new Date()\<close> anew for every document that needs it).
\<close>

record delivery =
  docs :: "doc list"
  clock :: "nat \<Rightarrow> int"

datatype firestore = Firestore string

text \<open>
  The \<^verbatim>\<open>useState\<close> cells of \<^verbatim>\<open>App\<close> (\<^verbatim>\<open>auth\<close>, which nothing reads after it is set,
  is left out), and their first values.
\<close>

record app_state =
  db :: "firestore option"
  userId :: "string option"
  isAuthReady :: bool
  orders :: "jsobj list"
  linkedMarketplaces :: "jsobj list"
  loading :: bool
  error :: "string option"
  filter_st :: string
  searchTerm :: string

definition initial_state :: app_state where
  "initial_state =
     \<lparr>db = None, userId = None, isAuthReady = False, orders = [],
      linkedMarketplaces = [], loading = True, error = None,
      filter_st = ''all'', searchTerm = []\<rparr>"

section \<open>The orders subscription\<close>

text \<open>JavaScript truthiness of a property read (\<open>None\<close> is \<^verbatim>\<open>undefined\<close>).\<close>

fun truthy :: "jsval option \<Rightarrow> bool" where
  "truthy None = False"
| "truthy (Some JNull) = False"
| "truthy (Some (JBool b)) = b"
| "truthy (Some (JNum n)) = (n \<noteq> 0)"
| "truthy (Some (JStr s)) = (s \<noteq> [])"
| "truthy (Some (JTimestamp s n)) = True"
| "truthy (Some (JDate t)) = True"
| "truthy (Some (JOpaque s)) = True"

text \<open>
  \<^verbatim>\<open>new Date(v.seconds * 1000)\<close>: only a timestamp has a \<^verbatim>\<open>seconds\<close> property; on
  every other value \<^verbatim>\<open>v.seconds\<close> is \<^verbatim>\<open>undefined\<close>, the product is NaN and the
  Date is invalid.
\<close>

fun date_of_seconds :: "jsval \<Rightarrow> jsval" where
  "date_of_seconds (JTimestamp s n) = JDate (Some (s * 1000))"
| "date_of_seconds v = JDate None"

text \<open>
  \<^verbatim>\<open>doc.data().order_date ? new Date(doc.data().order_date.seconds * 1000) : new Date()\<close>
\<close>

definition order_date_of :: "int \<Rightarrow> jsobj \<Rightarrow> jsval" where
  "order_date_of now d =
     (case d ''order_date'' of
        None \<Rightarrow> JDate (Some now)
      | Some v \<Rightarrow> if truthy (Some v) then date_of_seconds v else JDate (Some now))"

text \<open>
  \<^verbatim>\<open>{ id: doc.id, ...doc.data(), order_date: ... }\<close>: the spread comes after
  \<^verbatim>\<open>id\<close>, so a field of the document that is itself named \<^verbatim>\<open>id\<close> replaces the
  document id.
\<close>

definition order_of_doc :: "int \<Rightarrow> doc \<Rightarrow> jsobj" where
  "order_of_doc now d =
     ([''id'' \<mapsto> JStr (doc_id d)] ++ doc_data d)(''order_date'' \<mapsto> order_date_of now (doc_data d))"

definition fetchedOrders :: "delivery \<Rightarrow> jsobj list" where
  "fetchedOrders dl = map (\<lambda>(i, d). order_of_doc (clock dl i) d) (enumerate 0 (docs dl))"

text \<open>The success callback of \<^verbatim>\<open>onSnapshot(orderRef, ...)\<close>.\<close>

definition onSnapshot_orders :: "delivery \<Rightarrow> app_state \<Rightarrow> app_state" where
  "onSnapshot_orders dl st = st\<lparr>orders := fetchedOrders dl, loading := False\<rparr>"

text \<open>Its error callback: the cache is left as it was.\<close>

definition onSnapshot_orders_error :: "string \<Rightarrow> app_state \<Rightarrow> app_state" where
  "onSnapshot_orders_error msg st =
     st\<lparr>error := Some (''Error al cargar pedidos: '' @ msg), loading := False\<rparr>"

text \<open>
  What the rendering reads of a cache: the \<^verbatim>\<open>id\<close> and the \<^verbatim>\<open>status\<close> of each entry,
  in order; and the ids of the documents of a delivery.
\<close>

definition entry_ids :: "jsobj list \<Rightarrow> jsval option list" where
  "entry_ids es = map (\<lambda>e. e ''id'') es"

definition entry_statuses :: "jsobj list \<Rightarrow> jsval option list" where
  "entry_statuses es = map (\<lambda>e. e ''status'') es"

definition doc_ids :: "doc list \<Rightarrow> jsval option list" where
  "doc_ids ds = map (\<lambda>d. Some (JStr (doc_id d))) ds"

text \<open>A document that has no field named \<^verbatim>\<open>id\<close> among its data.\<close>

definition no_own_id :: "doc \<Rightarrow> bool" where
  "no_own_id d = (doc_data d ''id'' = None)"

section \<open>The derived view\<close>

text \<open>
  What is thrown: a TypeError of the language, or the error the Firestore client throws
  when it refuses an argument.
\<close>

datatype js_error = TypeError | FirestoreError

text \<open>
  How a piece of the component ends: it returns a value, it throws, or it returns a
  value the language leaves to the engine (\<^verbatim>\<open>Array.prototype.sort\<close> with a
  comparator that is not consistent).
\<close>

datatype 'a outcome = Returns 'a | Throws js_error | EngineDefined

text \<open>
  \<^verbatim>\<open>String.prototype.toLowerCase\<close> on the ASCII letters (a \<open>char\<close> is a byte; a
  capital letter, codes 65 to 90, gets its bit of weight 32 set, other bytes are left
  as they are) and \<^verbatim>\<open>String.prototype.includes\<close>.
\<close>

fun lower_char :: "char \<Rightarrow> char" where
  "lower_char (Char b0 b1 b2 b3 b4 b5 b6 b7) =
     (if 65 \<le> (of_char (Char b0 b1 b2 b3 b4 b5 b6 b7) :: nat)
         \<and> (of_char (Char b0 b1 b2 b3 b4 b5 b6 b7) :: nat) \<le> 90
      then Char b0 b1 b2 b3 b4 True b6 b7
      else Char b0 b1 b2 b3 b4 b5 b6 b7)"

definition toLowerCase :: "string \<Rightarrow> string" where
  "toLowerCase s = map lower_char s"

fun includes_str :: "string \<Rightarrow> string \<Rightarrow> bool" where
  "includes_str [] sub = (sub = [])"
| "includes_str (c # cs) sub = (take (length sub) (c # cs) = sub \<or> includes_str cs sub)"

text \<open>
  \<^verbatim>\<open>v.toLowerCase().includes(searchLower)\<close> for a property read \<open>v\<close>: on
  \<^verbatim>\<open>undefined\<close>, and on a value that is not a string, the call of
  \<^verbatim>\<open>toLowerCase\<close> throws a TypeError.
\<close>

fun lower_includes :: "jsval option \<Rightarrow> string \<Rightarrow> js_error + bool" where
  "lower_includes (Some (JStr s)) sub = Inr (includes_str (toLowerCase s) sub)"
| "lower_includes v sub = Inl TypeError"

text \<open>
  The predicate of the search filter. \<^verbatim>\<open>||\<close> evaluates its right operand only when
  the left one is false.
\<close>

definition matchesSearch :: "string \<Rightarrow> jsobj \<Rightarrow> js_error + bool" where
  "matchesSearch searchLower ord =
     (case lower_includes (ord ''order_id'') searchLower of
        Inl e \<Rightarrow> Inl e
      | Inr by_id \<Rightarrow>
          if by_id then Inr True
          else (case lower_includes (ord ''customer_name'') searchLower of
                  Inl e \<Rightarrow> Inl e
                | Inr by_name \<Rightarrow>
                    if by_name then Inr True
                    else lower_includes (ord ''marketplace'') searchLower))"

text \<open>\<^verbatim>\<open>Array.prototype.filter\<close> with a predicate that may throw.\<close>

fun filter_js :: "('a \<Rightarrow> js_error + bool) \<Rightarrow> 'a list \<Rightarrow> js_error + 'a list" where
  "filter_js p [] = Inr []"
| "filter_js p (x # xs) =
     (case p x of
        Inl e \<Rightarrow> Inl e
      | Inr keep \<Rightarrow>
          (case filter_js p xs of
             Inl e \<Rightarrow> Inl e
           | Inr ys \<Rightarrow> Inr (if keep then x # ys else ys)))"

text \<open>
  \<^verbatim>\<open>currentOrders\<close> as it stands before the sort: the status filter, then the
  search filter when \<^verbatim>\<open>searchTerm\<close> is not empty.
\<close>

definition statusFiltered :: "app_state \<Rightarrow> jsobj list" where
  "statusFiltered st =
     (if filter_st st = ''all'' then orders st
      else filter (\<lambda>ord. ord ''status'' = Some (JStr (filter_st st))) (orders st))"

definition currentOrders :: "app_state \<Rightarrow> js_error + jsobj list" where
  "currentOrders st =
     (if searchTerm st = [] then Inr (statusFiltered st)
      else filter_js (matchesSearch (toLowerCase (searchTerm st))) (statusFiltered st))"

text \<open>
  \<^verbatim>\<open>x.order_date.getTime()\<close>: a TypeError when \<^verbatim>\<open>order_date\<close> is not a Date, NaN
  on an Invalid Date, the milliseconds otherwise.
\<close>

datatype time_reading = NotADate | NaN | Ms int

fun getTime :: "jsval option \<Rightarrow> time_reading" where
  "getTime (Some (JDate (Some t))) = Ms t"
| "getTime (Some (JDate None)) = NaN"
| "getTime v = NotADate"

definition order_time :: "jsobj \<Rightarrow> time_reading" where
  "order_time ord = getTime (ord ''order_date'')"

fun ms_of :: "time_reading \<Rightarrow> int" where
  "ms_of (Ms t) = t"
| "ms_of r = 0"

text \<open>
  The comparator \<^verbatim>\<open>(a, b) => b.order_date.getTime() - a.order_date.getTime()\<close> puts
  \<open>a\<close> first when its time is the greater one: ascending order of the negated time.
\<close>

definition newest_first_key :: "jsobj \<Rightarrow> int" where
  "newest_first_key ord = - ms_of (order_time ord)"

fun all_same :: "'a list \<Rightarrow> bool" where
  "all_same [] = True"
| "all_same (x # xs) = list_all (\<lambda>y. y = x) xs"

text \<open>
  \<^verbatim>\<open>Array.prototype.sort\<close> with that comparator, as ECMAScript (2019 and later)
  defines it:
  \<^item> an array of fewer than two elements is returned as it is, the comparator is not
    called;
  \<^item> otherwise every element is handed to the comparator, which throws on an element
    whose \<^verbatim>\<open>order_date\<close> is not a Date;
  \<^item> a difference that is NaN counts as 0. With an Invalid Date among the elements
    the comparator is consistent only when all the valid times are equal, and then
    every comparison is 0 and the stable sort leaves the array as it is; otherwise
    the order is the engine's;
  \<^item> with valid dates only, the sort is the stable sort by the comparator.
\<close>

definition sort_newest_first :: "jsobj list \<Rightarrow> jsobj list outcome" where
  "sort_newest_first xs =
     (if length xs < 2 then Returns xs
      else if NotADate \<in> set (map order_time xs) then Throws TypeError
      else if NaN \<in> set (map order_time xs) then
        (if all_same (filter (\<lambda>r. r \<noteq> NaN) (map order_time xs)) then Returns xs
         else EngineDefined)
      else Returns (sort_key newest_first_key xs))"

text \<open>
  \<^verbatim>\<open>filteredOrders\<close>. \<^verbatim>\<open>sort\<close> works in place and returns its receiver. With the
  filter \<^verbatim>\<open>'all'\<close> and no search term \<^verbatim>\<open>currentOrders\<close> is the very array held in
  the \<^verbatim>\<open>orders\<close> state, so the sort reorders that array; in every other case
  \<^verbatim>\<open>Array.prototype.filter\<close> has made a fresh array. The result is the view together
  with the contents of the \<^verbatim>\<open>orders\<close> array after the evaluation.
\<close>

definition sorts_orders_in_place :: "app_state \<Rightarrow> bool" where
  "sorts_orders_in_place st = (filter_st st = ''all'' \<and> searchTerm st = [])"

definition filteredOrders :: "app_state \<Rightarrow> (jsobj list \<times> jsobj list) outcome" where
  "filteredOrders st =
     (case currentOrders st of
        Inl e \<Rightarrow> Throws e
      | Inr cur \<Rightarrow>
          (case sort_newest_first cur of
             Returns view \<Rightarrow>
               Returns (view, if sorts_orders_in_place st then view else orders st)
           | Throws e \<Rightarrow> Throws e
           | EngineDefined \<Rightarrow> EngineDefined))"

text \<open>
  The orders the two filters keep, read off their predicates: the status is the one
  asked for (or every status is), and the search term is empty or found.
\<close>

definition selected :: "app_state \<Rightarrow> jsobj \<Rightarrow> bool" where
  "selected st ord =
     ((filter_st st = ''all'' \<or> ord ''status'' = Some (JStr (filter_st st)))
      \<and> (searchTerm st = [] \<or> matchesSearch (toLowerCase (searchTerm st)) ord = Inr True))"

text \<open>An order whose \<^verbatim>\<open>order_date\<close> is a Date with a time, not an Invalid Date.\<close>

definition has_valid_date :: "jsobj \<Rightarrow> bool" where
  "has_valid_date ord = (case order_time ord of Ms t \<Rightarrow> True | NotADate \<Rightarrow> False | NaN \<Rightarrow> False)"

section \<open>Renders and the events that reach the cache\<close>

text \<open>
  \<^verbatim>\<open>filteredOrders\<close> is a \<^verbatim>\<open>useMemo\<close> over \<^verbatim>\<open>orders\<close>, \<^verbatim>\<open>filter\<close> and
  \<^verbatim>\<open>searchTerm\<close>: the render that follows a change of one of the three evaluates it
  anew, and with it the sort in place. A throw in a render is caught nowhere (the root
  renders \<^verbatim>\<open>App\<close> with no error boundary): React unmounts the component, and its
  state is gone. Where the language leaves the order of a sort to the engine, the
  array in the cache is left in the order \<open>engine\<close> gives it.
\<close>

definition render :: "(jsobj list \<Rightarrow> jsobj list) \<Rightarrow> app_state \<Rightarrow> js_error + app_state" where
  "render engine st =
     (case filteredOrders st of
        Returns (view, after) \<Rightarrow> Inr (st\<lparr>orders := after\<rparr>)
      | Throws e \<Rightarrow> Inl e
      | EngineDefined \<Rightarrow>
          Inr (if sorts_orders_in_place st then st\<lparr>orders := engine (orders st)\<rparr> else st))"

text \<open>
  What reaches the state between two looks at the cache: a snapshot for the success
  callback of the orders subscription, an error for its error callback, a choice in
  the status filter, a keystroke in the search box. \<^verbatim>\<open>setOrders\<close> is always given a
  fresh array, so a render with a new evaluation follows; the error callback changes
  none of the three dependencies, so the render after it evaluates nothing anew; a
  filter or a search term equal to the present one changes nothing.
\<close>

datatype dashboard_event =
    Snapshot delivery
  | SnapshotError string
  | FilterChanged string
  | SearchChanged string

fun step :: "(jsobj list \<Rightarrow> jsobj list) \<Rightarrow> dashboard_event \<Rightarrow> app_state \<Rightarrow> js_error + app_state" where
  "step engine (Snapshot dl) st = render engine (onSnapshot_orders dl st)"
| "step engine (SnapshotError msg) st = Inr (onSnapshot_orders_error msg st)"
| "step engine (FilterChanged f) st =
     (if f = filter_st st then Inr st else render engine (st\<lparr>filter_st := f\<rparr>))"
| "step engine (SearchChanged needle) st =
     (if needle = searchTerm st then Inr st else render engine (st\<lparr>searchTerm := needle\<rparr>))"

text \<open>Events are handled one after the other; after a throw there is nothing left to handle them.\<close>

fun process_events ::
  "(jsobj list \<Rightarrow> jsobj list) \<Rightarrow> dashboard_event list \<Rightarrow> app_state \<Rightarrow> js_error + app_state" where
  "process_events engine [] st = Inr st"
| "process_events engine (ev # evs) st =
     (case step engine ev st of
        Inl e \<Rightarrow> Inl e
      | Inr st' \<Rightarrow> process_events engine evs st')"

text \<open>The last snapshot among the events, if there is one.\<close>

fun latest_delivery :: "dashboard_event list \<Rightarrow> delivery option" where
  "latest_delivery [] = None"
| "latest_delivery (Snapshot dl # evs) =
     (case latest_delivery evs of None \<Rightarrow> Some dl | Some later \<Rightarrow> Some later)"
| "latest_delivery (ev # evs) = latest_delivery evs"

section \<open>Status options and badge counts\<close>

text \<open>The \<^verbatim>\<open>value\<close> of each entry of \<^verbatim>\<open>STATUS_OPTIONS\<close>, in order.\<close>

definition STATUS_OPTIONS :: "string list" where
  "STATUS_OPTIONS = [''new'', ''preparing'', ''ready_to_ship'', ''shipped'', ''cancelled'']"

text \<open>\<^verbatim>\<open>orders.filter(o => o.status === s.value).length\<close>, the count beside a status.\<close>

definition statusCount :: "jsobj list \<Rightarrow> string \<Rightarrow> nat" where
  "statusCount os s = length (filter (\<lambda>ord. ord ''status'' = Some (JStr s)) os)"

definition badgeCounts :: "jsobj list \<Rightarrow> nat list" where
  "badgeCounts os = map (statusCount os) STATUS_OPTIONS"

text \<open>\<^verbatim>\<open>orders.length\<close>, the count beside "all".\<close>

definition totalCount :: "jsobj list \<Rightarrow> nat" where
  "totalCount os = length os"

text \<open>An order whose \<^verbatim>\<open>status\<close> is the value of one of the status options.\<close>

definition known_status :: "jsobj \<Rightarrow> bool" where
  "known_status ord = (ord ''status'' \<in> set (map (\<lambda>s. Some (JStr s)) STATUS_OPTIONS))"

section \<open>Mutations\<close>

text \<open>
  What the component asks of the Firestore client, in the order it asks:
  \<^verbatim>\<open>addDoc(ref, data)\<close> with the path of the collection reference (\<open>None\<close> when the
  reference is \<^verbatim>\<open>null\<close>), \<^verbatim>\<open>updateDoc(doc(db, path, id), patch)\<close> and
  \<^verbatim>\<open>deleteDoc(doc(db, path, id))\<close>, each with the path and the id handed to
  \<^verbatim>\<open>doc\<close>.
\<close>

datatype adapter_call =
    AddDoc "string option" jsobj
  | UpdateDoc string string jsobj
  | DeleteDoc string string

text \<open>
  What the component reads from outside when a handler runs: the injected
  \<^verbatim>\<open>appId\<close>, the clock (\<^verbatim>\<open>new Date()\<close>), \<^verbatim>\<open>Math.floor(Math.random() * 100000)\<close>,
  \<^verbatim>\<open>parseFloat\<close>, the answer to \<^verbatim>\<open>window.confirm\<close>, whether the client's
  \<^verbatim>\<open>doc(db, path, id)\<close> builds a reference from a path and an id (it throws on an id
  it does not accept as the id of a document, the empty one among them), and the
  client's answer to a call: \<open>None\<close> when the promise resolves, \<open>Some msg\<close> when it
  rejects or the call throws with the message \<open>msg\<close>.
\<close>

record env =
  appId :: string
  now :: int
  random_id :: nat
  parseFloat :: "jsval option \<Rightarrow> jsval"
  confirm :: bool
  doc_accepts :: "string \<Rightarrow> string \<Rightarrow> bool"
  adapter :: "adapter_call \<Rightarrow> string option"

text \<open>\<^verbatim>\<open>!db\<close> and \<^verbatim>\<open>!userId\<close> (the empty string is falsy as well).\<close>

definition no_db :: "app_state \<Rightarrow> bool" where
  "no_db st = (db st = None)"

definition no_user :: "app_state \<Rightarrow> bool" where
  "no_user st = (userId st = None \<or> userId st = Some [])"

definition getOrderCollectionRef :: "string \<Rightarrow> app_state \<Rightarrow> string option" where
  "getOrderCollectionRef app st =
     (if no_db st \<or> no_user st then None
      else Some (''artifacts/'' @ app @ ''/public/data/orders''))"

definition uid_value :: "app_state \<Rightarrow> jsval" where
  "uid_value st = (case userId st of None \<Rightarrow> JNull | Some u \<Rightarrow> JStr u)"

text \<open>
  How the promise of an \<^verbatim>\<open>async\<close> handler settles, the calls it made and the
  dashboard state it leaves. No caller of a handler catches a rejection.
\<close>

datatype settled = Fulfilled | Rejected js_error

record handler_result =
  promise :: settled
  calls :: "adapter_call list"
  state_after :: app_state

text \<open>
  \<^verbatim>\<open>handleUpdateStatus\<close>. The first statement,
  \<^verbatim>\<open>doc(db, getOrderCollectionRef().path, orderId)\<close>, stands outside the \<^verbatim>\<open>try\<close>: on
  a \<^verbatim>\<open>null\<close> reference the read of \<^verbatim>\<open>path\<close> throws a TypeError, on an id the client
  does not accept \<^verbatim>\<open>doc\<close> throws, and either way the promise rejects before any
  call. Nothing in the handler reads the order's present status.
\<close>

definition status_patch :: "env \<Rightarrow> app_state \<Rightarrow> string \<Rightarrow> jsobj" where
  "status_patch ev st newStatus =
     [''status'' \<mapsto> JStr newStatus,
      ''updated_by'' \<mapsto> uid_value st,
      ''updated_at'' \<mapsto> JDate (Some (now ev))]"

definition handleUpdateStatus :: "env \<Rightarrow> app_state \<Rightarrow> string \<Rightarrow> string \<Rightarrow> handler_result" where
  "handleUpdateStatus ev st orderId newStatus =
     (case getOrderCollectionRef (appId ev) st of
        None \<Rightarrow> \<lparr>promise = Rejected TypeError, calls = [], state_after = st\<rparr>
      | Some path \<Rightarrow>
          if doc_accepts ev path orderId then
            (case adapter ev (UpdateDoc path orderId (status_patch ev st newStatus)) of
               None \<Rightarrow>
                 \<lparr>promise = Fulfilled,
                  calls = [UpdateDoc path orderId (status_patch ev st newStatus)],
                  state_after = st\<rparr>
             | Some msg \<Rightarrow>
                 \<lparr>promise = Fulfilled,
                  calls = [UpdateDoc path orderId (status_patch ev st newStatus)],
                  state_after = st\<lparr>error := Some (''Fallo al actualizar el estado: '' @ msg)\<rparr>\<rparr>)
          else \<lparr>promise = Rejected FirestoreError, calls = [], state_after = st\<rparr>)"


subsection \<open>The form that adds an order\<close>

record form_state =
  isAdding :: bool
  formData :: jsobj

definition empty_formData :: jsobj where
  "empty_formData =
     [''order_id'' \<mapsto> JStr [], ''customer_name'' \<mapsto> JStr [],
      ''marketplace'' \<mapsto> JStr [], ''amount'' \<mapsto> JStr [], ''status'' \<mapsto> JStr ''new'']"

definition initial_form :: form_state where
  "initial_form = \<lparr>isAdding = False, formData = empty_formData\<rparr>"

text \<open>\<^verbatim>\<open>handleChange\<close>: \<^verbatim>\<open>setFormData(prev => ({ ...prev, [name]: value }))\<close>.\<close>

definition handleChange :: "string \<Rightarrow> string \<Rightarrow> form_state \<Rightarrow> form_state" where
  "handleChange name v f = f\<lparr>formData := (formData f)(name \<mapsto> JStr v)\<rparr>"

fun decimal :: "nat \<Rightarrow> string" where
  "decimal n =
     (if n < 10 then [char_of (48 + n)]
      else decimal (n div 10) @ [char_of (48 + n mod 10)])"

text \<open>\<^verbatim>\<open>formData.order_id || `ORD-${Math.floor(Math.random() * 100000)}`\<close>\<close>

definition order_id_or_generated :: "env \<Rightarrow> jsval option \<Rightarrow> jsval" where
  "order_id_or_generated ev v =
     (case v of
        None \<Rightarrow> JStr (''ORD-'' @ decimal (random_id ev))
      | Some x \<Rightarrow> if truthy (Some x) then x else JStr (''ORD-'' @ decimal (random_id ev)))"

text \<open>
  \<^verbatim>\<open>newOrder\<close>: the spread of \<^verbatim>\<open>formData\<close> first, the computed properties after
  it. \<^verbatim>\<open>status\<close> is not among the computed ones: it is the form's.
\<close>

definition newOrder :: "env \<Rightarrow> app_state \<Rightarrow> jsobj \<Rightarrow> jsobj" where
  "newOrder ev st fd =
     (fd ++ [''amount'' \<mapsto> parseFloat ev (fd ''amount''),
             ''order_date'' \<mapsto> JDate (Some (now ev)),
             ''created_by'' \<mapsto> uid_value st,
             ''updated_by'' \<mapsto> uid_value st])
       (''source'' := fd ''marketplace'',
        ''order_id'' \<mapsto> order_id_or_generated ev (fd ''order_id''),
        ''items'' \<mapsto> JOpaque ''[{ name: Producto X, qty: 1 }]'')"

record add_result = handler_result +
  form_after :: form_state

text \<open>
  \<^verbatim>\<open>handleAddOrder\<close>: \<^verbatim>\<open>addDoc(getOrderCollectionRef(), newOrder)\<close> stands inside the
  \<^verbatim>\<open>try\<close> and is handed the reference as it is, \<^verbatim>\<open>null\<close> included; \<^verbatim>\<open>finally\<close>
  clears \<^verbatim>\<open>isAdding\<close>.
\<close>

definition handleAddOrder :: "env \<Rightarrow> app_state \<Rightarrow> form_state \<Rightarrow> add_result" where
  "handleAddOrder ev st f =
     (case adapter ev (AddDoc (getOrderCollectionRef (appId ev) st) (newOrder ev st (formData f))) of
        None \<Rightarrow>
          \<lparr>promise = Fulfilled,
           calls = [AddDoc (getOrderCollectionRef (appId ev) st) (newOrder ev st (formData f))],
           state_after = st,
           form_after = \<lparr>isAdding = False, formData = empty_formData\<rparr>\<rparr>
      | Some msg \<Rightarrow>
          \<lparr>promise = Fulfilled,
           calls = [AddDoc (getOrderCollectionRef (appId ev) st) (newOrder ev st (formData f))],
           state_after = st\<lparr>error := Some (''Fallo al agregar pedido: '' @ msg)\<rparr>,
           form_after = f\<lparr>isAdding := False\<rparr>\<rparr>)"

text \<open>The \<^verbatim>\<open>status\<close> of each record handed to \<^verbatim>\<open>addDoc\<close>.\<close>

fun created_status :: "adapter_call \<Rightarrow> jsval option list" where
  "created_status (AddDoc r payload) = [payload ''status'']"
| "created_status c = []"

definition created_statuses :: "adapter_call list \<Rightarrow> jsval option list" where
  "created_statuses cs = concat (map created_status cs)"

subsection \<open>What is on the screen, and the requests it can take\<close>

text \<open>
  What \<^verbatim>\<open>App\<close> returns: the loading screen while \<^verbatim>\<open>loading || !isAuthReady\<close>, the
  error screen when \<^verbatim>\<open>error\<close> is set (a string that is not empty), the dashboard
  otherwise. The form, the search box, the status filter and the rows of the orders
  with their status select and delete button are part of the dashboard only.
\<close>

datatype screen = LoadingScreen | ErrorScreen | Dashboard

definition has_error :: "app_state \<Rightarrow> bool" where
  "has_error st = (case error st of None \<Rightarrow> False | Some msg \<Rightarrow> msg \<noteq> [])"

definition App_screen :: "app_state \<Rightarrow> screen" where
  "App_screen st =
     (if loading st \<or> \<not> isAuthReady st then LoadingScreen
      else if has_error st then ErrorScreen
      else Dashboard)"

text \<open>
  What \<^verbatim>\<open>AddOrderForm\<close> renders: with no linked marketplace the notice that the
  synchronisation cannot be simulated and no form; otherwise the form, whose
  \<^verbatim>\<open>onSubmit\<close> is \<^verbatim>\<open>handleAddOrder\<close>. That form is the only place the handler is
  attached to.
\<close>

datatype add_order_view = NoMarketplacesNotice | OrderEntryForm

definition AddOrderForm :: "app_state \<Rightarrow> add_order_view" where
  "AddOrderForm st =
     (if length (linkedMarketplaces st) = 0 then NoMarketplacesNotice else OrderEntryForm)"

text \<open>
  The five controls of the form are marked \<^verbatim>\<open>required\<close>: the browser hands a submit
  to \<^verbatim>\<open>onSubmit\<close> only when each holds a value that is not empty. The submit button
  is disabled while \<^verbatim>\<open>isAdding\<close>.
\<close>

fun filled :: "jsval option \<Rightarrow> bool" where
  "filled (Some (JStr s)) = (s \<noteq> [])"
| "filled v = False"

definition required_filled :: "jsobj \<Rightarrow> bool" where
  "required_filled fd =
     list_all (\<lambda>name. filled (fd name))
       [''order_id'', ''customer_name'', ''marketplace'', ''amount'', ''status'']"

text \<open>
  A request of the user and the handler it reaches, if it reaches one: a submit of
  the form, a choice in the status select of the row of an order, a click on the
  delete button of that row.
\<close>

datatype 'a dispatched = NoHandler | Handled 'a

definition AddOrderForm_submit :: "env \<Rightarrow> app_state \<Rightarrow> form_state \<Rightarrow> add_result dispatched" where
  "AddOrderForm_submit ev st f =
     (if App_screen st = Dashboard \<and> AddOrderForm st = OrderEntryForm
         \<and> isAdding f = False \<and> required_filled (formData f)
      then Handled (handleAddOrder ev st f)
      else NoHandler)"



text \<open>
  What a request did: the calls made to the client, and the error its promise was
  rejected with, which nothing catches.
\<close>

fun adapter_calls :: "'a handler_result_scheme dispatched \<Rightarrow> adapter_call list" where
  "adapter_calls NoHandler = []"
| "adapter_calls (Handled r) = calls r"

fun rejection :: "'a handler_result_scheme dispatched \<Rightarrow> js_error option" where
  "rejection NoHandler = None"
| "rejection (Handled r) = (case promise r of Fulfilled \<Rightarrow> None | Rejected e \<Rightarrow> Some e)"

subsection \<open>The states the component can be in\<close>



record component =
  app :: app_state
  listening :: bool


section \<open>Example inputs\<close>

text \<open>A clock that reads the same millisecond all through a delivery.\<close>

definition fixed_clock :: "int \<Rightarrow> nat \<Rightarrow> int" where
  "fixed_clock t i = t"

text \<open>
  Two deliveries: first the document \<open>1\<close> with status \<open>new\<close>, then \<open>1\<close>
  with status \<open>preparing\<close> and a document \<open>2\<close> with status \<open>new\<close>.
\<close>

definition first_delivery :: delivery where
  "first_delivery =
     \<lparr>docs = [\<lparr>doc_id = ''1'', doc_data = [''status'' \<mapsto> JStr ''new'']\<rparr>],
      clock = fixed_clock 1700000000000\<rparr>"

definition second_delivery :: delivery where
  "second_delivery =
     \<lparr>docs = [\<lparr>doc_id = ''1'', doc_data = [''status'' \<mapsto> JStr ''preparing'']\<rparr>,
              \<lparr>doc_id = ''2'', doc_data = [''status'' \<mapsto> JStr ''new'']\<rparr>],
      clock = fixed_clock 1700000060000\<rparr>"

text \<open>A document that carries a field named \<^verbatim>\<open>id\<close> of its own.\<close>

definition own_id_delivery :: delivery where
  "own_id_delivery =
     \<lparr>docs = [\<lparr>doc_id = ''a'', doc_data = [''id'' \<mapsto> JStr ''b'']\<rparr>],
      clock = fixed_clock 1700000000000\<rparr>"

text \<open>
  A document without \<^verbatim>\<open>order_date\<close>, delivered beside one whose timestamp is 100
  seconds ahead of the clock of the dashboard, and beside one from the past.
\<close>

definition undated_doc :: doc where
  "undated_doc = \<lparr>doc_id = ''a'', doc_data = [''status'' \<mapsto> JStr ''new'']\<rparr>"

definition future_doc :: doc where
  "future_doc =
     \<lparr>doc_id = ''b'', doc_data = [''order_date'' \<mapsto> JTimestamp 1700000100 0]\<rparr>"

definition past_doc :: doc where
  "past_doc =
     \<lparr>doc_id = ''p'', doc_data = [''order_date'' \<mapsto> JTimestamp 1600000000 0]\<rparr>"

definition future_delivery :: delivery where
  "future_delivery = \<lparr>docs = [undated_doc, future_doc], clock = fixed_clock 1700000000000\<rparr>"

definition past_delivery :: delivery where
  "past_delivery = \<lparr>docs = [past_doc, undated_doc], clock = fixed_clock 1700000000000\<rparr>"

text \<open>Cache entries: two of different dates, three of one date.\<close>

definition older_order :: jsobj where
  "older_order = [''id'' \<mapsto> JStr ''o'', ''order_date'' \<mapsto> JDate (Some 1000)]"

definition newer_order :: jsobj where
  "newer_order = [''id'' \<mapsto> JStr ''n'', ''order_date'' \<mapsto> JDate (Some 2000)]"

definition tie_a :: jsobj where
  "tie_a = [''id'' \<mapsto> JStr ''a'', ''order_date'' \<mapsto> JDate (Some 5000)]"

definition tie_b :: jsobj where
  "tie_b = [''id'' \<mapsto> JStr ''b'', ''order_date'' \<mapsto> JDate (Some 5000)]"

definition tie_c :: jsobj where
  "tie_c = [''id'' \<mapsto> JStr ''c'', ''order_date'' \<mapsto> JDate (Some 5000)]"

text \<open>An entry with a customer name and a marketplace and no \<^verbatim>\<open>order_id\<close>.\<close>

definition nameless_order :: jsobj where
  "nameless_order =
     [''id'' \<mapsto> JStr ''x'', ''customer_name'' \<mapsto> JStr ''Ana Lopez'',
      ''marketplace'' \<mapsto> JStr ''MercadoLibre'', ''status'' \<mapsto> JStr ''new'',
      ''order_date'' \<mapsto> JDate (Some 1000)]"

text \<open>Entries by status; \<open>Pending\<close> is not one of the status options.\<close>

definition order_with_status :: "string \<Rightarrow> jsobj" where
  "order_with_status s = [''status'' \<mapsto> JStr s, ''order_date'' \<mapsto> JDate (Some 1000)]"

definition shipped_order :: jsobj where
  "shipped_order =
     [''id'' \<mapsto> JStr ''o1'', ''order_id'' \<mapsto> JStr ''ML-1'', ''status'' \<mapsto> JStr ''shipped'',
      ''order_date'' \<mapsto> JDate (Some 1000)]"

text \<open>
  A session that is ready (database and user present, the dashboard on the screen),
  an environment whose client accepts every call and builds a reference from every id
  that is not empty and holds no slash, and one linked marketplace.
\<close>

definition ready_state :: app_state where
  "ready_state =
     initial_state\<lparr>db := Some (Firestore ''demo''), userId := Some ''u1'',
                   isAuthReady := True, loading := False\<rparr>"

definition accept_all :: "adapter_call \<Rightarrow> string option" where
  "accept_all c = None"

definition parse_as_25 :: "jsval option \<Rightarrow> jsval" where
  "parse_as_25 v = JNum 25"

definition plain_id :: "string \<Rightarrow> string \<Rightarrow> bool" where
  "plain_id path orderId = (orderId \<noteq> [] \<and> CHR ''/'' \<notin> set orderId)"

definition accepting_env :: env where
  "accepting_env =
     \<lparr>appId = ''default-app-id'', now = 1700000000000, random_id = 4711,
      parseFloat = parse_as_25, confirm = True, doc_accepts = plain_id,
      adapter = accept_all\<rparr>"

definition one_marketplace :: "jsobj list" where
  "one_marketplace = [[''id'' \<mapsto> JStr ''m1'', ''marketplace'' \<mapsto> JStr ''MercadoLibre'']]"

definition market_state :: app_state where
  "market_state = ready_state\<lparr>linkedMarketplaces := one_marketplace\<rparr>"

text \<open>
  The form with every required control filled in, and the same form after its status
  select was set to \<open>shipped\<close>.
\<close>

definition filled_form :: form_state where
  "filled_form =
     handleChange ''amount'' ''25''
       (handleChange ''marketplace'' ''MercadoLibre''
         (handleChange ''customer_name'' ''Ana''
           (handleChange ''order_id'' ''ML-7'' initial_form)))"

definition shipped_form :: form_state where
  "shipped_form = handleChange ''status'' ''shipped'' filled_form"

definition unsorted_state :: app_state where
  "unsorted_state = ready_state\<lparr>orders := [older_order, newer_order]\<rparr>"

definition tie_state :: app_state where
  "tie_state = ready_state\<lparr>orders := [tie_c, tie_a, tie_b]\<rparr>"

definition shipped_state :: app_state where
  "shipped_state = ready_state\<lparr>orders := [shipped_order]\<rparr>"

definition search_state :: app_state where
  "search_state = ready_state\<lparr>orders := [nameless_order], searchTerm := ''ana''\<rparr>"

definition four_orders :: "jsobj list" where
  "four_orders = map order_with_status [''new'', ''new'', ''preparing'', ''shipped'']"

text \<open>
  A delivery of one document that has a customer name and no \<^verbatim>\<open>order_id\<close>, and a
  dashboard in whose search box \<open>ana\<close> stands.
\<close>

definition nameless_delivery :: delivery where
  "nameless_delivery =
     \<lparr>docs = [\<lparr>doc_id = ''x'', doc_data = [''customer_name'' \<mapsto> JStr ''Ana Lopez'']\<rparr>],
      clock = fixed_clock 1700000000000\<rparr>"

definition searching_state :: app_state where
  "searching_state = ready_state\<lparr>searchTerm := ''ana''\<rparr>"

text \<open>
  The state after the two deliveries above and an error of the subscription, from the
  first state of the component.
\<close>

definition after_two_deliveries :: app_state where
  "after_two_deliveries =
     initial_state\<lparr>orders := fetchedOrders second_delivery, loading := False,
                   error := Some ''Error al cargar pedidos: unavailable''\<rparr>"


section \<open>Auxiliary facts\<close>

lemma length_fetchedOrders: "length (fetchedOrders dl) = length (docs dl)"
  by (simp add: fetchedOrders_def)

lemma nth_fetchedOrders:
  "i < length (docs dl) \<Longrightarrow> fetchedOrders dl ! i = order_of_doc (clock dl i) (docs dl ! i)"
  by (simp add: fetchedOrders_def nth_enumerate_eq)

lemma order_of_doc_id:
  "doc_data d ''id'' = None \<Longrightarrow> order_of_doc t d ''id'' = Some (JStr (doc_id d))"
  by (simp add: order_of_doc_def map_add_def)

lemma order_of_doc_other:
  "k \<noteq> ''id'' \<Longrightarrow> k \<noteq> ''order_date'' \<Longrightarrow> order_of_doc t d k = doc_data d k"
  by (simp add: order_of_doc_def map_add_def split: option.splits)

lemma order_of_doc_order_date:
  "order_of_doc t d ''order_date'' = Some (order_date_of t (doc_data d))"
  by (simp add: order_of_doc_def)

lemma entry_ids_fetchedOrders:
  assumes "list_all no_own_id (docs dl)"
  shows "entry_ids (fetchedOrders dl) = doc_ids (docs dl)"
proof (rule nth_equalityI)
  show "length (entry_ids (fetchedOrders dl)) = length (doc_ids (docs dl))"
    by (simp add: entry_ids_def doc_ids_def length_fetchedOrders)
next
  fix i assume "i < length (entry_ids (fetchedOrders dl))"
  then have i: "i < length (docs dl)"
    by (simp add: entry_ids_def length_fetchedOrders)
  with assms have "doc_data (docs dl ! i) ''id'' = None"
    by (simp add: list_all_length no_own_id_def)
  with i show "entry_ids (fetchedOrders dl) ! i = doc_ids (docs dl) ! i"
    by (simp add: entry_ids_def doc_ids_def length_fetchedOrders nth_fetchedOrders order_of_doc_id)
qed

lemma all_same_eq:
  assumes "all_same xs" "a \<in> set xs" "b \<in> set xs"
  shows "a = b"
proof (cases xs)
  case Nil
  with assms(2) show ?thesis by simp
next
  case (Cons x rest)
  with assms(1) have "\<forall>y\<in>set rest. y = x" by (simp add: list_all_iff)
  with assms(2,3) Cons have "a = x" "b = x" by auto
  then show ?thesis by simp
qed

lemma sort_newest_first_mset:
  "sort_newest_first cur = Returns view \<Longrightarrow> mset view = mset cur"
  by (auto simp: sort_newest_first_def split: if_splits)

lemma sort_newest_first_length:
  "sort_newest_first cur = Returns view \<Longrightarrow> length view = length cur"
  by (auto simp: sort_newest_first_def split: if_splits)

lemma sort_newest_first_cases:
  assumes "sort_newest_first cur = Returns view"
  obtains (short) "length cur < 2" "view = cur"
    | (same) "view = cur" "all_same (filter (\<lambda>r. r \<noteq> NaN) (map order_time cur))"
    | (sorted) "view = sort_key newest_first_key cur"
        "\<forall>e\<in>set cur. order_time e = Ms (- newest_first_key e)"
proof (cases "length cur < 2")
  case True
  with assms have "view = cur" by (simp add: sort_newest_first_def)
  with True show ?thesis by (rule short)
next
  case long: False
  show ?thesis
  proof (cases "NaN \<in> set (map order_time cur)")
    case True
    with assms long
    have "view = cur" "all_same (filter (\<lambda>r. r \<noteq> NaN) (map order_time cur))"
      by (simp_all add: sort_newest_first_def split: if_splits)
    then show ?thesis by (rule same)
  next
    case False
    with assms long have v: "view = sort_key newest_first_key cur"
      and nd: "NotADate \<notin> set (map order_time cur)"
      by (simp_all add: sort_newest_first_def split: if_splits)
    have "\<forall>e\<in>set cur. order_time e = Ms (- newest_first_key e)"
    proof
      fix e assume "e \<in> set cur"
      then have "order_time e \<in> set (map order_time cur)" by simp
      with nd False have "order_time e \<noteq> NotADate" "order_time e \<noteq> NaN" by metis+
      then show "order_time e = Ms (- newest_first_key e)"
        by (cases "order_time e") (simp_all add: newest_first_key_def)
    qed
    with v show ?thesis by (rule sorted)
  qed
qed

lemma sort_newest_first_stable:
  assumes "sort_newest_first cur = Returns view"
  shows "filter (\<lambda>e. order_time e = r) view = filter (\<lambda>e. order_time e = r) cur"
  using assms
proof (cases rule: sort_newest_first_cases)
  case short
  then show ?thesis by simp
next
  case same
  then show ?thesis by simp
next
  case sorted
  then have key: "\<And>e. e \<in> set cur \<Longrightarrow> order_time e = Ms (- newest_first_key e)" by blast
  show ?thesis
  proof (cases r)
    case (Ms t)
    have "filter (\<lambda>e. order_time e = r) view = filter (\<lambda>e. newest_first_key e = - t) view"
      using key Ms sorted(1) by (intro filter_cong) auto
    also have "\<dots> = filter (\<lambda>e. newest_first_key e = - t) cur"
      unfolding sorted(1) by (rule sort_key_stable)
    also have "\<dots> = filter (\<lambda>e. order_time e = r) cur"
      using key Ms by (intro filter_cong) auto
    finally show ?thesis .
  next
    case NotADate
    with key sorted(1) show ?thesis by (auto simp: filter_empty_conv)
  next
    case NaN
    with key sorted(1) show ?thesis by (auto simp: filter_empty_conv)
  qed
qed

lemma sort_newest_first_sorted:
  assumes "sort_newest_first cur = Returns view"
    and "p < q" "q < length view"
    and "order_time (view ! p) = Ms a" "order_time (view ! q) = Ms b"
  shows "b \<le> a"
  using assms(1)
proof (cases rule: sort_newest_first_cases)
  case short
  with assms(2,3) show ?thesis by simp
next
  case same
  from assms(2,3) same(1) have "cur ! p \<in> set cur" "cur ! q \<in> set cur" by simp_all
  with assms(4,5) same(1)
  have "Ms a \<in> set (filter (\<lambda>r. r \<noteq> NaN) (map order_time cur))"
    "Ms b \<in> set (filter (\<lambda>r. r \<noteq> NaN) (map order_time cur))"
    by force+
  with same(2) have "Ms a = Ms b" by (rule all_same_eq)
  then show ?thesis by simp
next
  case sorted
  have "sorted (map newest_first_key view)" unfolding sorted(1) by (rule sorted_sort_key)
  with assms(2,3) have "newest_first_key (view ! p) \<le> newest_first_key (view ! q)"
    by (simp add: sorted_iff_nth_mono)
  with assms(4,5) show ?thesis by (simp add: newest_first_key_def)
qed

lemma filteredOrders_Returns:
  assumes "filteredOrders st = Returns (view, after)"
  obtains cur where "currentOrders st = Inr cur" "sort_newest_first cur = Returns view"
    "after = (if sorts_orders_in_place st then view else orders st)"
  using assms
  by (auto simp: filteredOrders_def split: sum.splits outcome.splits)

text \<open>
  Evaluating \<open>filteredOrders\<close> once more, on the cache the first evaluation left,
  returns the same view and leaves the cache as it then is.
\<close>

lemma sort_newest_first_again:
  assumes "sort_newest_first cur = Returns view"
  shows "sort_newest_first view = Returns view"
  using assms
proof (cases rule: sort_newest_first_cases)
  case short
  with assms show ?thesis by simp
next
  case same
  with assms show ?thesis by simp
next
  case sorted
  have "sorted (map newest_first_key view)"
    unfolding sorted(1) by (rule sorted_sort_key)
  then have again: "sort_key newest_first_key view = view"
    by (rule sort_key_id_if_sorted)
  have "set (map order_time view) = set (map order_time cur)"
    by (simp add: sorted(1))
  moreover have "length view = length cur"
    by (simp add: sorted(1))
  ultimately show ?thesis
    using assms again sorted(1)
    by (auto simp: sort_newest_first_def split: if_splits)
qed

lemma filteredOrders_again:
  assumes "filteredOrders st = Returns (view, after)"
  shows "filteredOrders (st\<lparr>orders := after\<rparr>) = Returns (view, after)"
proof -
  from assms obtain cur where cur: "currentOrders st = Inr cur"
    and sorted: "sort_newest_first cur = Returns view"
    and after: "after = (if sorts_orders_in_place st then view else orders st)"
    by (rule filteredOrders_Returns)
  show ?thesis
  proof (cases "sorts_orders_in_place st")
    case True
    with after have "after = view" by simp
    moreover from True have "currentOrders (st\<lparr>orders := view\<rparr>) = Inr view"
      by (simp add: sorts_orders_in_place_def currentOrders_def statusFiltered_def)
    moreover note sort_newest_first_again [OF sorted]
    ultimately show ?thesis
      using True by (simp add: filteredOrders_def sorts_orders_in_place_def)
  next
    case False
    with after have "st\<lparr>orders := after\<rparr> = st" by simp
    with assms show ?thesis by simp
  qed
qed

lemma statusCount_Cons:
  "statusCount (e # os) s = (if e ''status'' = Some (JStr s) then 1 else 0) + statusCount os s"
  by (simp add: statusCount_def)

lemma status_indicator_sum:
  "sum_list (map (\<lambda>s. if v = Some (JStr s) then 1 else (0::nat)) STATUS_OPTIONS)
     = (if v \<in> set (map (\<lambda>s. Some (JStr s)) STATUS_OPTIONS) then 1 else 0)"
  by (auto simp: STATUS_OPTIONS_def)

lemma badgeCounts_sum:
  "sum_list (badgeCounts os) = length (filter known_status os)"
proof (induction os)
  case Nil
  show ?case by (simp add: badgeCounts_def statusCount_def STATUS_OPTIONS_def)
next
  case (Cons e os)
  have "sum_list (badgeCounts (e # os))
          = sum_list (map (\<lambda>s. if e ''status'' = Some (JStr s) then 1 else (0::nat)) STATUS_OPTIONS)
            + sum_list (badgeCounts os)"
  proof -
    have "map (statusCount (e # os)) STATUS_OPTIONS
            = map (\<lambda>s. (if e ''status'' = Some (JStr s) then 1 else 0) + statusCount os s) STATUS_OPTIONS"
      by (simp add: statusCount_Cons)
    then show ?thesis
      unfolding badgeCounts_def by (simp only: sum_list_addf)
  qed
  with Cons show ?case
    by (simp add: status_indicator_sum known_status_def)
qed

text \<open>What a render does to the cache, and what it leaves alone.\<close>

lemma currentOrders_in_place:
  "sorts_orders_in_place st \<Longrightarrow> currentOrders st = Inr (orders st)"
  by (simp add: sorts_orders_in_place_def currentOrders_def statusFiltered_def)


lemma render_mset:
  assumes "render engine st = Inr st'" and "\<And>xs. mset (engine xs) = mset xs"
  shows "mset (orders st') = mset (orders st)"
proof (cases "filteredOrders st")
  case (Returns pair)
  obtain view after where pair: "pair = (view, after)" by (cases pair)
  with Returns have ret: "filteredOrders st = Returns (view, after)" by simp
  with assms(1) have st': "orders st' = after" by (auto simp: render_def)
  from ret obtain cur where cur: "currentOrders st = Inr cur"
    and sorted: "sort_newest_first cur = Returns view"
    and after: "after = (if sorts_orders_in_place st then view else orders st)"
    by (rule filteredOrders_Returns)
  show ?thesis
  proof (cases "sorts_orders_in_place st")
    case True
    with cur have "cur = orders st" by (simp add: currentOrders_in_place)
    with sorted have "mset view = mset (orders st)" by (simp add: sort_newest_first_mset)
    with True after st' show ?thesis by simp
  next
    case False
    with after st' show ?thesis by simp
  qed
next
  case (Throws e)
  with assms(1) show ?thesis by (simp add: render_def)
next
  case EngineDefined
  with assms show ?thesis by (auto simp: render_def split: if_splits)
qed

lemma step_mset:
  assumes "step engine ev st = Inr st'" and "\<And>xs. mset (engine xs) = mset xs"
  shows "mset (orders st') =
     (case latest_delivery [ev] of None \<Rightarrow> mset (orders st) | Some dl \<Rightarrow> mset (fetchedOrders dl))"
proof (cases ev)
  case (Snapshot dl)
  with assms(1) have "render engine (onSnapshot_orders dl st) = Inr st'" by simp
  from render_mset [OF this assms(2)] Snapshot show ?thesis
    by (simp add: onSnapshot_orders_def)
next
  case (SnapshotError msg)
  with assms(1) show ?thesis by (auto simp: onSnapshot_orders_error_def)
next
  case (FilterChanged f)
  show ?thesis
  proof (cases "f = filter_st st")
    case True
    with assms(1) FilterChanged show ?thesis by simp
  next
    case False
    with assms(1) FilterChanged have "render engine (st\<lparr>filter_st := f\<rparr>) = Inr st'" by simp
    from render_mset [OF this assms(2)] FilterChanged show ?thesis by simp
  qed
next
  case (SearchChanged needle)
  show ?thesis
  proof (cases "needle = searchTerm st")
    case True
    with assms(1) SearchChanged show ?thesis by simp
  next
    case False
    with assms(1) SearchChanged have "render engine (st\<lparr>searchTerm := needle\<rparr>) = Inr st'" by simp
    from render_mset [OF this assms(2)] SearchChanged show ?thesis by simp
  qed
qed

lemma process_events_mset:
  assumes "\<And>xs. mset (engine xs) = mset xs"
  shows "process_events engine evs st = Inr st' \<Longrightarrow>
     mset (orders st') =
       (case latest_delivery evs of None \<Rightarrow> mset (orders st) | Some dl \<Rightarrow> mset (fetchedOrders dl))"
proof (induction evs arbitrary: st)
  case Nil
  then show ?case by simp
next
  case (Cons ev evs)
  from Cons.prems obtain mid where mid: "step engine ev st = Inr mid"
    and rest: "process_events engine evs mid = Inr st'"
    by (auto split: sum.splits)
  note head = step_mset [OF mid assms]
  note tail = Cons.IH [OF rest]
  show ?case
  proof (cases "latest_delivery evs")
    case None
    with head tail show ?thesis by (cases ev) simp_all
  next
    case (Some dl)
    with tail show ?thesis by (cases ev) simp_all
  qed
qed

text \<open>The selection, when the search does not throw, is a filter of the cache.\<close>

lemma filter_js_filter:
  "filter_js p xs = Inr ys \<Longrightarrow> ys = filter (\<lambda>x. p x = Inr True) xs"
proof (induction xs arbitrary: ys)
  case Nil
  then show ?case by simp
next
  case (Cons x xs)
  then show ?case by (auto split: sum.splits if_splits)
qed

lemma currentOrders_selected:
  assumes "currentOrders st = Inr cur"
  shows "cur = filter (selected st) (orders st)"
proof -
  have by_status: "statusFiltered st =
      filter (\<lambda>ord. filter_st st = ''all'' \<or> ord ''status'' = Some (JStr (filter_st st)))
        (orders st)"
    by (simp add: statusFiltered_def)
  show ?thesis
  proof (cases "searchTerm st = []")
    case True
    then have "selected st =
        (\<lambda>ord. filter_st st = ''all'' \<or> ord ''status'' = Some (JStr (filter_st st)))"
      by (simp add: selected_def fun_eq_iff)
    with assms True by_status show ?thesis by (simp add: currentOrders_def)
  next
    case False
    with assms
    have "filter_js (matchesSearch (toLowerCase (searchTerm st))) (statusFiltered st) = Inr cur"
      by (simp add: currentOrders_def)
    then have "cur =
        filter (\<lambda>x. matchesSearch (toLowerCase (searchTerm st)) x = Inr True) (statusFiltered st)"
      by (rule filter_js_filter)
    moreover from False have "selected st =
        (\<lambda>ord. (filter_st st = ''all'' \<or> ord ''status'' = Some (JStr (filter_st st)))
               \<and> matchesSearch (toLowerCase (searchTerm st)) ord = Inr True)"
      by (simp add: selected_def fun_eq_iff)
    ultimately show ?thesis by (simp add: by_status)
  qed
qed

text \<open>With valid dates only, the sort returns, and it is the stable sort.\<close>

lemma sort_newest_first_valid:
  assumes "list_all has_valid_date cur"
  shows "\<exists>view. sort_newest_first cur = Returns view"
proof -
  have "r \<noteq> NotADate \<and> r \<noteq> NaN" if "r \<in> set (map order_time cur)" for r
    using assms that
    by (auto simp: list_all_iff has_valid_date_def split: time_reading.splits)
  then have "NotADate \<notin> set (map order_time cur)" "NaN \<notin> set (map order_time cur)"
    by blast+
  then show ?thesis by (simp add: sort_newest_first_def)
qed





section \<open>The cache after a delivery\<close>

text \<open>
  C1, as amended. Take any sequence of snapshots and errors of the orders subscription
  and of changes of the filter and the search term, each followed by its render, and
  let \<open>dl\<close> be the latest snapshot in it. As long as no render throws, the orders
  cache at the end holds the entries built from the documents of \<open>dl\<close>, each as
  often as \<open>dl\<close> gives it and nothing else (the renders may have sorted them;
  a sort whose order the language leaves to the engine still only rearranges),
  whatever the earlier events and the earlier cache were. When no delivered document
  carries a field named \<open>id\<close> of its own, the ids of the entries are the document
  ids; and in the entry built from a document every field other than \<open>id\<close> and
  \<open>order_date\<close> is the delivered one, absent when the document has none
  (\<open>order_date\<close> is normalised, see C10).
\<close>

theorem cache_is_latest_delivery:
  assumes "\<And>xs. mset (engine xs) = mset xs"
    and "process_events engine evs st = Inr st'"
    and "latest_delivery evs = Some dl"
  shows "mset (orders st') = mset (fetchedOrders dl)
       \<and> length (orders st') = length (docs dl)
       \<and> (list_all no_own_id (docs dl) \<longrightarrow>
            mset (entry_ids (orders st')) = mset (doc_ids (docs dl)))
       \<and> (\<forall>i k. i < length (docs dl) \<and> k \<noteq> ''id'' \<and> k \<noteq> ''order_date'' \<longrightarrow>
            (fetchedOrders dl ! i) k = doc_data (docs dl ! i) k)"
proof -
  from process_events_mset [OF assms(1) assms(2)] assms(3)
  have latest: "mset (orders st') = mset (fetchedOrders dl)" by simp
  then have "size (mset (orders st')) = size (mset (fetchedOrders dl))" by simp
  then have len: "length (orders st') = length (docs dl)"
    by (simp add: length_fetchedOrders)
  have "mset (entry_ids (orders st')) = mset (entry_ids (fetchedOrders dl))"
    using latest by (simp add: entry_ids_def)
  then have ids: "list_all no_own_id (docs dl) \<longrightarrow>
      mset (entry_ids (orders st')) = mset (doc_ids (docs dl))"
    by (simp add: entry_ids_fetchedOrders)
  have fields: "\<forall>i k. i < length (docs dl) \<and> k \<noteq> ''id'' \<and> k \<noteq> ''order_date'' \<longrightarrow>
      (fetchedOrders dl ! i) k = doc_data (docs dl ! i) k"
    by (simp add: nth_fetchedOrders order_of_doc_other)
  from latest len ids fields show ?thesis by blast
qed

theorem cache_is_latest_delivery_witness:
  "mset (rev (orders after_two_deliveries)) = mset (orders after_two_deliveries)
   \<and> process_events rev
        [Snapshot first_delivery, Snapshot second_delivery, SnapshotError ''unavailable'']
        initial_state
       = Inr after_two_deliveries
   \<and> latest_delivery
        [Snapshot first_delivery, Snapshot second_delivery, SnapshotError ''unavailable'']
       = Some second_delivery
   \<and> list_all no_own_id (docs second_delivery)
   \<and> mset (entry_ids (orders after_two_deliveries))
       = mset [Some (JStr ''1''), Some (JStr ''2'')]
   \<and> entry_statuses (orders after_two_deliveries)
       = [Some (JStr ''preparing''), Some (JStr ''new'')]"
proof -
  have perm: "\<And>xs :: jsobj list. mset (rev xs) = mset xs" by simp
  have first: "fetchedOrders first_delivery
      = [order_of_doc 1700000000000 \<lparr>doc_id = ''1'', doc_data = [''status'' \<mapsto> JStr ''new'']\<rparr>]"
    by (simp add: fetchedOrders_def first_delivery_def fixed_clock_def enumerate_eq_zip)
  have second: "fetchedOrders second_delivery
      = [order_of_doc 1700000060000 \<lparr>doc_id = ''1'', doc_data = [''status'' \<mapsto> JStr ''preparing'']\<rparr>,
         order_of_doc 1700000060000 \<lparr>doc_id = ''2'', doc_data = [''status'' \<mapsto> JStr ''new'']\<rparr>]"
    by (simp add: fetchedOrders_def second_delivery_def fixed_clock_def enumerate_eq_zip)
  have times: "order_time (order_of_doc 1700000060000 d) = Ms 1700000060000"
    if "doc_data d ''order_date'' = None" for d
    using that by (simp add: order_time_def order_of_doc_def order_date_of_def)
  have sorted: "sort_newest_first (fetchedOrders second_delivery)
      = Returns (fetchedOrders second_delivery)"
    unfolding second by (simp add: sort_newest_first_def newest_first_key_def times)
  have r1: "render rev (onSnapshot_orders first_delivery initial_state)
      = Inr (onSnapshot_orders first_delivery initial_state)"
    by (simp add: render_def filteredOrders_def currentOrders_def statusFiltered_def
        sorts_orders_in_place_def sort_newest_first_def onSnapshot_orders_def
        initial_state_def first)
  have r2: "render rev (onSnapshot_orders second_delivery (onSnapshot_orders first_delivery initial_state))
      = Inr (onSnapshot_orders second_delivery (onSnapshot_orders first_delivery initial_state))"
    using sorted
    by (simp add: render_def filteredOrders_def currentOrders_def statusFiltered_def
        sorts_orders_in_place_def onSnapshot_orders_def initial_state_def)
  have run: "process_events rev
        [Snapshot first_delivery, Snapshot second_delivery, SnapshotError ''unavailable'']
        initial_state
       = Inr after_two_deliveries"
    by (simp add: r1 r2)
      (simp add: onSnapshot_orders_def onSnapshot_orders_error_def after_two_deliveries_def
        initial_state_def)
  have latest: "latest_delivery
      [Snapshot first_delivery, Snapshot second_delivery, SnapshotError ''unavailable'']
     = Some second_delivery"
    by simp
  have own: "list_all no_own_id (docs second_delivery)"
    by (simp add: second_delivery_def no_own_id_def)
  from cache_is_latest_delivery [OF perm run latest] own
  have ids: "mset (entry_ids (orders after_two_deliveries)) = mset (doc_ids (docs second_delivery))"
    by blast
  have "doc_ids (docs second_delivery) = [Some (JStr ''1''), Some (JStr ''2'')]"
    by (simp add: doc_ids_def second_delivery_def)
  moreover have "entry_statuses (orders after_two_deliveries)
       = [Some (JStr ''preparing''), Some (JStr ''new'')]"
    by (simp add: after_two_deliveries_def entry_statuses_def second order_of_doc_def map_add_def)
  ultimately show ?thesis
    using run latest own ids by simp
qed

text \<open>
  The claim as it is written fails on a document that carries its own \<open>id\<close> field:
  the document \<open>a\<close> is cached under the id \<open>b\<close>, which the delivery does not hold,
  and the entry has an \<open>order_date\<close> that the document did not deliver. And while
  \<open>ana\<close> stands in the search box, the delivery of a document without \<open>order_id\<close>
  ends in a render that throws: no cache is left.
\<close>

theorem own_id_field_replaces_document_id:
  "process_events rev [Snapshot own_id_delivery] initial_state
     = Inr (onSnapshot_orders own_id_delivery initial_state)
   \<and> doc_ids (docs own_id_delivery) = [Some (JStr ''a'')]
   \<and> entry_ids (orders (onSnapshot_orders own_id_delivery initial_state)) = [Some (JStr ''b'')]
   \<and> entry_ids (orders (onSnapshot_orders own_id_delivery initial_state))
        \<noteq> doc_ids (docs own_id_delivery)
   \<and> doc_data (docs own_id_delivery ! 0) ''order_date'' = None
   \<and> (orders (onSnapshot_orders own_id_delivery initial_state) ! 0) ''order_date''
        = Some (JDate (Some 1700000000000))
   \<and> process_events rev [Snapshot nameless_delivery] searching_state = Inl TypeError"
proof -
  have cache: "fetchedOrders own_id_delivery
      = [order_of_doc 1700000000000 \<lparr>doc_id = ''a'', doc_data = [''id'' \<mapsto> JStr ''b'']\<rparr>]"
    by (simp add: fetchedOrders_def own_id_delivery_def fixed_clock_def enumerate_eq_zip)
  have run: "process_events rev [Snapshot own_id_delivery] initial_state
     = Inr (onSnapshot_orders own_id_delivery initial_state)"
    by (simp add: render_def filteredOrders_def currentOrders_def statusFiltered_def
        sorts_orders_in_place_def sort_newest_first_def onSnapshot_orders_def
        initial_state_def cache)
  have given: "doc_ids (docs own_id_delivery) = [Some (JStr ''a'')]"
    "doc_data (docs own_id_delivery ! 0) ''order_date'' = None"
    by (simp_all add: own_id_delivery_def doc_ids_def)
  have entry:
    "entry_ids (orders (onSnapshot_orders own_id_delivery initial_state)) = [Some (JStr ''b'')]"
    "(orders (onSnapshot_orders own_id_delivery initial_state) ! 0) ''order_date''
        = Some (JDate (Some 1700000000000))"
    by (simp_all add: onSnapshot_orders_def cache order_of_doc_def order_date_of_def
        map_add_def entry_ids_def)
  have nameless: "fetchedOrders nameless_delivery
      = [order_of_doc 1700000000000
           \<lparr>doc_id = ''x'', doc_data = [''customer_name'' \<mapsto> JStr ''Ana Lopez'']\<rparr>]"
    by (simp add: fetchedOrders_def nameless_delivery_def fixed_clock_def enumerate_eq_zip)
  have crash: "process_events rev [Snapshot nameless_delivery] searching_state = Inl TypeError"
    by (simp add: render_def filteredOrders_def currentOrders_def statusFiltered_def
        matchesSearch_def onSnapshot_orders_def searching_state_def ready_state_def
        initial_state_def nameless order_of_doc_def map_add_def)
  from run given entry crash show ?thesis by simp
qed

section \<open>What the derived view returns\<close>

text \<open>
  C2. The claim asks that evaluating \<open>filteredOrders\<close> leaves the cache as it was.
  With the filter \<open>all\<close> and an empty search term the evaluation sorts the
  \<open>orders\<close> array itself: a cache holding the older order before the newer one
  holds them the other way round afterwards.
\<close>

theorem filteredOrders_reorders_cache:
  "filter_st unsorted_state = ''all'' \<and> searchTerm unsorted_state = []
   \<and> orders unsorted_state = [older_order, newer_order]
   \<and> filteredOrders unsorted_state
        = Returns ([newer_order, older_order], [newer_order, older_order])
   \<and> entry_ids [older_order, newer_order] = [Some (JStr ''o''), Some (JStr ''n'')]
   \<and> entry_ids [newer_order, older_order] = [Some (JStr ''n''), Some (JStr ''o'')]"
proof -
  have "order_time older_order = Ms 1000" "order_time newer_order = Ms 2000"
    by (simp_all add: order_time_def older_order_def newer_order_def)
  then have "sort_newest_first [older_order, newer_order] = Returns [newer_order, older_order]"
    by (simp add: sort_newest_first_def newest_first_key_def)
  then show ?thesis
    by (simp add: filteredOrders_def currentOrders_def statusFiltered_def
        sorts_orders_in_place_def unsorted_state_def ready_state_def initial_state_def
        entry_ids_def older_order_def newer_order_def)
qed

text \<open>
  C5, as amended. For every cache whose \<open>order_date\<close>s are all valid Dates, and every
  filter and search state on which the search does not throw, \<open>filteredOrders\<close>
  returns a view. The view holds the selected orders of the cache (those the status
  filter and the search keep) and nothing else; it is newest first by \<open>order_date\<close>;
  and orders with the same \<open>order_date\<close> stand in the order they have in the
  cache: the sort is stable and has no second key.
\<close>

theorem filteredOrders_newest_first_stable:
  assumes "list_all has_valid_date (orders st)" and "currentOrders st = Inr cur"
  shows "\<exists>view after. filteredOrders st = Returns (view, after)
       \<and> cur = filter (selected st) (orders st)
       \<and> mset view = mset (filter (selected st) (orders st))
       \<and> (\<forall>p q a b. p < q \<and> q < length view
              \<and> order_time (view ! p) = Ms a \<and> order_time (view ! q) = Ms b \<longrightarrow> b \<le> a)
       \<and> (\<forall>r. filter (\<lambda>e. order_time e = r) view
              = filter (\<lambda>e. order_time e = r) (filter (selected st) (orders st)))"
proof -
  from assms(2) have sel: "cur = filter (selected st) (orders st)"
    by (rule currentOrders_selected)
  with assms(1) have "list_all has_valid_date cur"
    by (simp add: list_all_iff)
  then obtain view where sorted: "sort_newest_first cur = Returns view"
    using sort_newest_first_valid by blast
  with assms(2) have ret: "filteredOrders st
      = Returns (view, if sorts_orders_in_place st then view else orders st)"
    by (simp add: filteredOrders_def)
  have "mset view = mset cur"
    using sorted by (rule sort_newest_first_mset)
  moreover have "\<forall>p q a b. p < q \<and> q < length view
      \<and> order_time (view ! p) = Ms a \<and> order_time (view ! q) = Ms b \<longrightarrow> b \<le> a"
    using sort_newest_first_sorted [OF sorted] by blast
  moreover have "\<forall>r. filter (\<lambda>e. order_time e = r) view = filter (\<lambda>e. order_time e = r) cur"
    using sort_newest_first_stable [OF sorted] by blast
  ultimately show ?thesis
    using ret sel by blast
qed

theorem filteredOrders_newest_first_stable_witness:
  "list_all has_valid_date (orders unsorted_state)
   \<and> currentOrders unsorted_state = Inr [older_order, newer_order]
   \<and> filter (selected unsorted_state) (orders unsorted_state) = [older_order, newer_order]
   \<and> filteredOrders unsorted_state
        = Returns ([newer_order, older_order], [newer_order, older_order])
   \<and> order_time ([newer_order, older_order] ! 0) = Ms 2000
   \<and> order_time ([newer_order, older_order] ! 1) = Ms 1000
   \<and> (1000::int) \<le> 2000
   \<and> mset [newer_order, older_order] = mset [older_order, newer_order]"
proof -
  have times: "order_time older_order = Ms 1000" "order_time newer_order = Ms 2000"
    by (simp_all add: order_time_def older_order_def newer_order_def)
  then have s: "sort_newest_first [older_order, newer_order] = Returns [newer_order, older_order]"
    by (simp add: sort_newest_first_def newest_first_key_def)
  have valid: "list_all has_valid_date (orders unsorted_state)"
    using times by (simp add: unsorted_state_def has_valid_date_def)
  have cur: "currentOrders unsorted_state = Inr [older_order, newer_order]"
    by (simp add: currentOrders_def statusFiltered_def unsorted_state_def ready_state_def
        initial_state_def)
  have ret: "filteredOrders unsorted_state
        = Returns ([newer_order, older_order], [newer_order, older_order])"
    using s cur
    by (simp add: filteredOrders_def sorts_orders_in_place_def unsorted_state_def ready_state_def
        initial_state_def)
  from filteredOrders_newest_first_stable [OF valid cur] ret
  have sel: "filter (selected unsorted_state) (orders unsorted_state) = [older_order, newer_order]"
    and "mset [newer_order, older_order] = mset [older_order, newer_order]"
    by auto
  with valid cur ret times show ?thesis by simp
qed

text \<open>
  The claim as it is written has ties ordered by id. Three cached orders of one
  \<open>order_date\<close>, held in the order \<open>c\<close>, \<open>a\<close>, \<open>b\<close>, come out in that order.
\<close>

theorem ties_keep_cache_order:
  "order_time tie_c = Ms 5000 \<and> order_time tie_a = Ms 5000 \<and> order_time tie_b = Ms 5000
   \<and> orders tie_state = [tie_c, tie_a, tie_b]
   \<and> filteredOrders tie_state = Returns ([tie_c, tie_a, tie_b], [tie_c, tie_a, tie_b])
   \<and> entry_ids [tie_c, tie_a, tie_b] = [Some (JStr ''c''), Some (JStr ''a''), Some (JStr ''b'')]"
proof -
  have times: "order_time tie_c = Ms 5000" "order_time tie_a = Ms 5000" "order_time tie_b = Ms 5000"
    by (simp_all add: order_time_def tie_a_def tie_b_def tie_c_def)
  then have "sort_newest_first [tie_c, tie_a, tie_b] = Returns [tie_c, tie_a, tie_b]"
    by (simp add: sort_newest_first_def newest_first_key_def)
  with times show ?thesis
    by (simp add: filteredOrders_def currentOrders_def statusFiltered_def
        sorts_orders_in_place_def tie_state_def ready_state_def initial_state_def
        entry_ids_def tie_a_def tie_b_def tie_c_def)
qed

text \<open>
  C6. The claim asks that a record without one of the searched fields is not matched
  on that field and the search goes on. The entry below has no \<open>order_id\<close>; its
  customer name contains the search term; the search throws a TypeError.
\<close>

theorem search_throws_without_order_id:
  "nameless_order ''order_id'' = None
   \<and> lower_includes (nameless_order ''customer_name'') (toLowerCase ''ana'') = Inr True
   \<and> matchesSearch (toLowerCase ''ana'') nameless_order = Inl TypeError
   \<and> orders search_state = [nameless_order] \<and> searchTerm search_state = ''ana''
   \<and> filteredOrders search_state = Throws TypeError"
  by (simp add: filteredOrders_def currentOrders_def statusFiltered_def matchesSearch_def
      search_state_def ready_state_def initial_state_def nameless_order_def toLowerCase_def)

text \<open>
  C10, as amended. In a snapshot delivery, a document without \<open>order_date\<close> is cached
  with the Date the clock reads while the document is handled, and a document whose
  \<open>order_date\<close> is a timestamp is cached with the Date of its seconds times 1000.
  When every \<open>order_date\<close> of the cache the delivery gives is a valid Date, then in
  the view that \<open>filteredOrders\<close> returns for that cache the entry of a document
  without \<open>order_date\<close> stands before every entry whose Date is earlier than that
  clock reading. (It does not stand before an entry dated after the reading.)
\<close>

theorem undated_order_gets_clock_reading:
  assumes "i < length (docs dl)"
  shows "(doc_data (docs dl ! i) ''order_date'' = None \<longrightarrow>
            (orders (onSnapshot_orders dl st) ! i) ''order_date'' = Some (JDate (Some (clock dl i))))
       \<and> (doc_data (docs dl ! i) ''order_date'' = Some (JTimestamp s n) \<longrightarrow>
            (orders (onSnapshot_orders dl st) ! i) ''order_date'' = Some (JDate (Some (s * 1000))))
       \<and> (\<forall>view after p q t.
            doc_data (docs dl ! i) ''order_date'' = None
            \<and> list_all has_valid_date (orders (onSnapshot_orders dl st))
            \<and> filteredOrders (onSnapshot_orders dl st) = Returns (view, after)
            \<and> p < length view \<and> q < length view
            \<and> view ! p = orders (onSnapshot_orders dl st) ! i
            \<and> order_time (view ! q) = Ms t \<and> t < clock dl i
            \<longrightarrow> p < q)"
proof -
  have entry: "orders (onSnapshot_orders dl st) ! i = order_of_doc (clock dl i) (docs dl ! i)"
    using assms by (simp add: onSnapshot_orders_def nth_fetchedOrders)
  have undated: "doc_data (docs dl ! i) ''order_date'' = None \<longrightarrow>
      (orders (onSnapshot_orders dl st) ! i) ''order_date'' = Some (JDate (Some (clock dl i)))"
    by (simp add: entry order_of_doc_order_date order_date_of_def)
  have dated: "doc_data (docs dl ! i) ''order_date'' = Some (JTimestamp s n) \<longrightarrow>
      (orders (onSnapshot_orders dl st) ! i) ''order_date'' = Some (JDate (Some (s * 1000)))"
    by (simp add: entry order_of_doc_order_date order_date_of_def)
  have first: "p < q"
    if none: "doc_data (docs dl ! i) ''order_date'' = None"
      and ret: "filteredOrders (onSnapshot_orders dl st) = Returns (view, after)"
      and p: "p < length view" and q: "q < length view"
      and at_p: "view ! p = orders (onSnapshot_orders dl st) ! i"
      and at_q: "order_time (view ! q) = Ms t" and earlier: "t < clock dl i"
    for view after p q t
  proof (rule ccontr)
    assume "\<not> p < q"
    then have "q < p \<or> q = p" by auto
    from ret obtain cur where sorted: "sort_newest_first cur = Returns view"
      by (rule filteredOrders_Returns)
    from none undated at_p have time_p: "order_time (view ! p) = Ms (clock dl i)"
      by (simp add: order_time_def)
    from \<open>q < p \<or> q = p\<close> show False
    proof
      assume "q < p"
      from sort_newest_first_sorted [OF sorted this p at_q time_p] earlier
      show False by simp
    next
      assume "q = p"
      with at_q time_p earlier show False by simp
    qed
  qed
  from undated dated first show ?thesis by blast
qed

theorem undated_order_gets_clock_reading_witness:
  "(1::nat) < length (docs past_delivery)
   \<and> doc_data (docs past_delivery ! 1) ''order_date'' = None
   \<and> doc_data (docs past_delivery ! 0) ''order_date'' = Some (JTimestamp 1600000000 0)
   \<and> list_all has_valid_date (orders (onSnapshot_orders past_delivery initial_state))
   \<and> (orders (onSnapshot_orders past_delivery initial_state) ! 1) ''order_date''
        = Some (JDate (Some 1700000000000))
   \<and> entry_ids (orders (onSnapshot_orders past_delivery initial_state))
        = [Some (JStr ''p''), Some (JStr ''a'')]
   \<and> filteredOrders (onSnapshot_orders past_delivery initial_state)
        = Returns ([order_of_doc 1700000000000 undated_doc, order_of_doc 1700000000000 past_doc],
                   [order_of_doc 1700000000000 undated_doc, order_of_doc 1700000000000 past_doc])
   \<and> entry_ids [order_of_doc 1700000000000 undated_doc, order_of_doc 1700000000000 past_doc]
        = [Some (JStr ''a''), Some (JStr ''p'')]"
proof -
  have len: "(1::nat) < length (docs past_delivery)"
    by (simp add: past_delivery_def)
  have none: "doc_data (docs past_delivery ! 1) ''order_date'' = None"
    by (simp add: past_delivery_def undated_doc_def)
  from undated_order_gets_clock_reading [OF len, of initial_state] none
  have stored: "(orders (onSnapshot_orders past_delivery initial_state) ! 1) ''order_date''
      = Some (JDate (Some 1700000000000))"
    by (simp add: past_delivery_def fixed_clock_def)
  have cache: "orders (onSnapshot_orders past_delivery initial_state)
      = [order_of_doc 1700000000000 past_doc, order_of_doc 1700000000000 undated_doc]"
    by (simp add: onSnapshot_orders_def fetchedOrders_def past_delivery_def fixed_clock_def
        enumerate_eq_zip)
  have times: "order_time (order_of_doc 1700000000000 past_doc) = Ms 1600000000000"
    "order_time (order_of_doc 1700000000000 undated_doc) = Ms 1700000000000"
    by (simp_all add: order_time_def order_of_doc_def order_date_of_def past_doc_def
        undated_doc_def)
  then have "sort_newest_first
      [order_of_doc 1700000000000 past_doc, order_of_doc 1700000000000 undated_doc]
      = Returns [order_of_doc 1700000000000 undated_doc, order_of_doc 1700000000000 past_doc]"
    by (simp add: sort_newest_first_def newest_first_key_def)
  with cache have view: "filteredOrders (onSnapshot_orders past_delivery initial_state)
        = Returns ([order_of_doc 1700000000000 undated_doc, order_of_doc 1700000000000 past_doc],
                   [order_of_doc 1700000000000 undated_doc, order_of_doc 1700000000000 past_doc])"
    by (simp add: filteredOrders_def currentOrders_def statusFiltered_def
        sorts_orders_in_place_def onSnapshot_orders_def initial_state_def)
  have ids: "entry_ids [order_of_doc 1700000000000 past_doc, order_of_doc 1700000000000 undated_doc]
        = [Some (JStr ''p''), Some (JStr ''a'')]"
    "entry_ids [order_of_doc 1700000000000 undated_doc, order_of_doc 1700000000000 past_doc]
        = [Some (JStr ''a''), Some (JStr ''p'')]"
    by (simp_all add: entry_ids_def order_of_doc_def map_add_def past_doc_def undated_doc_def)
  have dated: "doc_data (docs past_delivery ! 0) ''order_date'' = Some (JTimestamp 1600000000 0)"
    by (simp add: past_delivery_def past_doc_def)
  have valid: "list_all has_valid_date (orders (onSnapshot_orders past_delivery initial_state))"
    using times by (simp add: cache has_valid_date_def)
  from len none dated valid stored cache view ids show ?thesis by simp
qed

text \<open>
  The claim as it is written has the undated record sort as the most recent. Beside a
  document whose timestamp is 100 seconds ahead of the clock, the undated document
  \<open>a\<close> comes second in the view.
\<close>

theorem undated_order_behind_future_order:
  "doc_data (docs future_delivery ! 0) ''order_date'' = None
   \<and> entry_ids (orders (onSnapshot_orders future_delivery initial_state))
        = [Some (JStr ''a''), Some (JStr ''b'')]
   \<and> filteredOrders (onSnapshot_orders future_delivery initial_state)
        = Returns ([order_of_doc 1700000000000 future_doc, order_of_doc 1700000000000 undated_doc],
                   [order_of_doc 1700000000000 future_doc, order_of_doc 1700000000000 undated_doc])
   \<and> entry_ids [order_of_doc 1700000000000 future_doc, order_of_doc 1700000000000 undated_doc]
        = [Some (JStr ''b''), Some (JStr ''a'')]"
proof -
  have cache: "orders (onSnapshot_orders future_delivery initial_state)
      = [order_of_doc 1700000000000 undated_doc, order_of_doc 1700000000000 future_doc]"
    by (simp add: onSnapshot_orders_def fetchedOrders_def future_delivery_def fixed_clock_def
        enumerate_eq_zip)
  have times: "order_time (order_of_doc 1700000000000 future_doc) = Ms 1700000100000"
    "order_time (order_of_doc 1700000000000 undated_doc) = Ms 1700000000000"
    by (simp_all add: order_time_def order_of_doc_def order_date_of_def future_doc_def
        undated_doc_def)
  then have "sort_newest_first
      [order_of_doc 1700000000000 undated_doc, order_of_doc 1700000000000 future_doc]
      = Returns [order_of_doc 1700000000000 future_doc, order_of_doc 1700000000000 undated_doc]"
    by (simp add: sort_newest_first_def newest_first_key_def)
  with cache have view: "filteredOrders (onSnapshot_orders future_delivery initial_state)
        = Returns ([order_of_doc 1700000000000 future_doc, order_of_doc 1700000000000 undated_doc],
                   [order_of_doc 1700000000000 future_doc, order_of_doc 1700000000000 undated_doc])"
    by (simp add: filteredOrders_def currentOrders_def statusFiltered_def
        sorts_orders_in_place_def onSnapshot_orders_def initial_state_def)
  have ids: "entry_ids [order_of_doc 1700000000000 undated_doc, order_of_doc 1700000000000 future_doc]
        = [Some (JStr ''a''), Some (JStr ''b'')]"
    "entry_ids [order_of_doc 1700000000000 future_doc, order_of_doc 1700000000000 undated_doc]
        = [Some (JStr ''b''), Some (JStr ''a'')]"
    by (simp_all add: entry_ids_def order_of_doc_def map_add_def future_doc_def undated_doc_def)
  have none: "doc_data (docs future_delivery ! 0) ''order_date'' = None"
    by (simp add: future_delivery_def undated_doc_def)
  from none cache view ids show ?thesis by simp
qed

section \<open>Badge counts\<close>

text \<open>
  C9, as amended. The counts shown beside the status options are computed from the
  cache alone, and their sum is the number of cached orders whose status is one of
  the five status options; it is the total count when every cached order has such a
  status.
\<close>

theorem badge_counts_sum_known_statuses:
  "sum_list (badgeCounts os) = length (filter known_status os)
   \<and> (list_all known_status os \<longrightarrow> sum_list (badgeCounts os) = totalCount os)"
proof -
  have sum: "sum_list (badgeCounts os) = length (filter known_status os)"
    by (rule badgeCounts_sum)
  have "list_all known_status os \<longrightarrow> filter known_status os = os"
    by (simp add: list_all_iff)
  with sum show ?thesis by (simp add: totalCount_def)
qed

theorem badge_counts_sum_known_statuses_witness:
  "list_all known_status four_orders
   \<and> badgeCounts four_orders = [2, 1, 0, 1, 0]
   \<and> sum_list (badgeCounts four_orders) = 4
   \<and> totalCount four_orders = 4"
proof -
  have known: "list_all known_status four_orders"
    by (simp add: four_orders_def known_status_def order_with_status_def STATUS_OPTIONS_def)
  have total: "totalCount four_orders = 4"
    by (simp add: totalCount_def four_orders_def)
  have counts: "badgeCounts four_orders = [2, 1, 0, 1, 0]"
    by (simp add: badgeCounts_def statusCount_def four_orders_def order_with_status_def
        STATUS_OPTIONS_def)
  from badge_counts_sum_known_statuses [of four_orders] known total
  have "sum_list (badgeCounts four_orders) = 4" by simp
  with known counts total show ?thesis by simp
qed

text \<open>
  The claim as it is written holds for every cache. A cached order whose status is
  \<open>Pending\<close>, which is not a status option, is counted in the total and under no
  status.
\<close>

theorem unknown_status_is_counted_nowhere:
  "badgeCounts [order_with_status ''Pending''] = [0, 0, 0, 0, 0]
   \<and> sum_list (badgeCounts [order_with_status ''Pending'']) = 0
   \<and> totalCount [order_with_status ''Pending''] = 1"
  by (simp add: badgeCounts_def statusCount_def totalCount_def order_with_status_def
      STATUS_OPTIONS_def)

section \<open>What the mutation handlers do\<close>

text \<open>
  C3, as amended. The component has no table of transitions: when the session is
  ready, \<open>handleUpdateStatus\<close> hands the client exactly one update for the order,
  for every target status and whatever status the order has, cached as shipped or
  cancelled included, provided the client's \<open>doc\<close> builds a reference from the id
  of the order. The patch sets \<open>status\<close> to the target, and \<open>updated_by\<close> and
  \<open>updated_at\<close>, and nothing else; the promise is fulfilled and the cache is not
  touched. On an id \<open>doc\<close> does not accept, \<open>doc\<close> throws before the
  \<open>try\<close>: no update is sent and the promise is rejected.
\<close>

theorem handleUpdateStatus_sends_any_target:
  assumes "getOrderCollectionRef (appId ev) st = Some path"
  shows "(doc_accepts ev path orderId \<longrightarrow>
            calls (handleUpdateStatus ev st orderId newStatus)
              = [UpdateDoc path orderId (status_patch ev st newStatus)]
            \<and> promise (handleUpdateStatus ev st orderId newStatus) = Fulfilled)
       \<and> (doc_accepts ev path orderId = False \<longrightarrow>
            calls (handleUpdateStatus ev st orderId newStatus) = []
            \<and> promise (handleUpdateStatus ev st orderId newStatus) = Rejected FirestoreError)
       \<and> status_patch ev st newStatus ''status'' = Some (JStr newStatus)
       \<and> dom (status_patch ev st newStatus) = {''status'', ''updated_by'', ''updated_at''}
       \<and> orders (state_after (handleUpdateStatus ev st orderId newStatus)) = orders st"
proof -
  have "status_patch ev st newStatus ''status'' = Some (JStr newStatus)"
    by (simp add: status_patch_def)
  moreover have "dom (status_patch ev st newStatus) = {''status'', ''updated_by'', ''updated_at''}"
    by (auto simp: status_patch_def)
  moreover from assms have "doc_accepts ev path orderId \<longrightarrow>
      calls (handleUpdateStatus ev st orderId newStatus)
        = [UpdateDoc path orderId (status_patch ev st newStatus)]
      \<and> promise (handleUpdateStatus ev st orderId newStatus) = Fulfilled"
    by (simp add: handleUpdateStatus_def split: option.splits)
  moreover from assms have "doc_accepts ev path orderId = False \<longrightarrow>
      calls (handleUpdateStatus ev st orderId newStatus) = []
      \<and> promise (handleUpdateStatus ev st orderId newStatus) = Rejected FirestoreError"
    by (simp add: handleUpdateStatus_def)
  moreover from assms
  have "orders (state_after (handleUpdateStatus ev st orderId newStatus)) = orders st"
    by (simp add: handleUpdateStatus_def split: option.splits)
  ultimately show ?thesis by simp
qed

theorem handleUpdateStatus_sends_any_target_witness:
  "getOrderCollectionRef (appId accepting_env) shipped_state
     = Some ''artifacts/default-app-id/public/data/orders''
   \<and> doc_accepts accepting_env ''artifacts/default-app-id/public/data/orders'' ''o1''
   \<and> calls (handleUpdateStatus accepting_env shipped_state ''o1'' ''preparing'')
       = [UpdateDoc ''artifacts/default-app-id/public/data/orders'' ''o1''
            (status_patch accepting_env shipped_state ''preparing'')]
   \<and> promise (handleUpdateStatus accepting_env shipped_state ''o1'' ''preparing'') = Fulfilled
   \<and> doc_accepts accepting_env ''artifacts/default-app-id/public/data/orders'' [] = False
   \<and> calls (handleUpdateStatus accepting_env shipped_state [] ''preparing'') = []
   \<and> promise (handleUpdateStatus accepting_env shipped_state [] ''preparing'')
       = Rejected FirestoreError"
proof -
  have ref: "getOrderCollectionRef (appId accepting_env) shipped_state
     = Some ''artifacts/default-app-id/public/data/orders''"
    by (simp add: getOrderCollectionRef_def no_db_def no_user_def shipped_state_def
        ready_state_def initial_state_def accepting_env_def)
  have ok: "doc_accepts accepting_env ''artifacts/default-app-id/public/data/orders'' ''o1''"
    by (simp add: accepting_env_def plain_id_def)
  have empty: "doc_accepts accepting_env ''artifacts/default-app-id/public/data/orders'' [] = False"
    by (simp add: accepting_env_def plain_id_def)
  from handleUpdateStatus_sends_any_target [OF ref, of "''o1''" "''preparing''"]
    handleUpdateStatus_sends_any_target [OF ref, of "[]" "''preparing''"] ref ok empty
  show ?thesis by simp
qed

text \<open>
  The claim as it is written has an advance from a terminal status rejected, with no
  update call. The cached order \<open>o1\<close> is shipped; setting it back to \<open>new\<close> sends
  the update.
\<close>

theorem shipped_order_update_is_sent:
  "orders shipped_state = [shipped_order]
   \<and> shipped_order ''id'' = Some (JStr ''o1'')
   \<and> shipped_order ''status'' = Some (JStr ''shipped'')
   \<and> calls (handleUpdateStatus accepting_env shipped_state ''o1'' ''new'')
       = [UpdateDoc ''artifacts/default-app-id/public/data/orders'' ''o1''
            (status_patch accepting_env shipped_state ''new'')]
   \<and> status_patch accepting_env shipped_state ''new'' ''status'' = Some (JStr ''new'')
   \<and> promise (handleUpdateStatus accepting_env shipped_state ''o1'' ''new'') = Fulfilled"
  by (simp add: handleUpdateStatus_def getOrderCollectionRef_def no_db_def no_user_def
      shipped_state_def ready_state_def initial_state_def accepting_env_def accept_all_def
      plain_id_def shipped_order_def status_patch_def)



text \<open>
  C7, as amended. With no linked marketplace the component renders the notice in place
  of the form; a request to create an order then reaches no handler, whatever the
  draft: no call is made to the client, and nothing is rejected, with no condition of
  any kind.
\<close>

theorem no_marketplace_no_create:
  assumes "linkedMarketplaces st = []"
  shows "AddOrderForm st = NoMarketplacesNotice
       \<and> AddOrderForm_submit ev st f = NoHandler
       \<and> adapter_calls (AddOrderForm_submit ev st f) = []
       \<and> rejection (AddOrderForm_submit ev st f) = None"
  using assms by (simp add: AddOrderForm_def AddOrderForm_submit_def)

theorem no_marketplace_no_create_witness:
  "linkedMarketplaces ready_state = []
   \<and> AddOrderForm ready_state = NoMarketplacesNotice
   \<and> AddOrderForm_submit accepting_env ready_state shipped_form = NoHandler
   \<and> adapter_calls (AddOrderForm_submit accepting_env ready_state shipped_form) = []
   \<and> rejection (AddOrderForm_submit accepting_env ready_state shipped_form) = None"
proof -
  have none: "linkedMarketplaces ready_state = []"
    by (simp add: ready_state_def initial_state_def)
  from no_marketplace_no_create [OF none, of accepting_env shipped_form] none
  show ?thesis by simp
qed

text \<open>
  The claim as it is written has the request rejected with a condition. With the
  dashboard on the screen, no linked marketplace and every required field of the
  draft filled in, the request reaches no handler and is not rejected: the component
  has no such condition, it shows the notice.
\<close>

theorem create_without_marketplace_is_not_rejected:
  "App_screen ready_state = Dashboard
   \<and> linkedMarketplaces ready_state = []
   \<and> required_filled (formData filled_form)
   \<and> AddOrderForm ready_state = NoMarketplacesNotice
   \<and> AddOrderForm_submit accepting_env ready_state filled_form = NoHandler
   \<and> rejection (AddOrderForm_submit accepting_env ready_state filled_form) = None"
  by (simp add: App_screen_def has_error_def AddOrderForm_def AddOrderForm_submit_def
      ready_state_def initial_state_def required_filled_def filled_form_def handleChange_def
      initial_form_def empty_formData_def)

text \<open>
  C8, as amended. The record handed to \<open>addDoc\<close> has the status the form holds. The
  form starts with \<open>new\<close> and is back at \<open>new\<close> after every create the client
  accepted; its status select sets it to the value chosen.
\<close>

theorem created_status_is_form_status:
  "created_statuses (calls (handleAddOrder ev st f)) = [formData f ''status'']
   \<and> formData initial_form ''status'' = Some (JStr ''new'')
   \<and> formData (handleChange ''status'' v f) ''status'' = Some (JStr v)
   \<and> (adapter ev (AddDoc (getOrderCollectionRef (appId ev) st) (newOrder ev st (formData f))) = None
        \<longrightarrow> formData (form_after (handleAddOrder ev st f)) ''status'' = Some (JStr ''new''))"
  by (simp add: handleAddOrder_def created_statuses_def newOrder_def map_add_def
      initial_form_def empty_formData_def handleChange_def split: option.splits)

theorem created_status_is_form_status_witness:
  "AddOrderForm_submit accepting_env market_state filled_form
     = Handled (handleAddOrder accepting_env market_state filled_form)
   \<and> adapter accepting_env
       (AddDoc (getOrderCollectionRef (appId accepting_env) market_state)
          (newOrder accepting_env market_state (formData filled_form))) = None
   \<and> formData filled_form ''status'' = Some (JStr ''new'')
   \<and> created_statuses (calls (handleAddOrder accepting_env market_state filled_form))
       = [Some (JStr ''new'')]
   \<and> formData (form_after (handleAddOrder accepting_env market_state filled_form)) ''status''
       = Some (JStr ''new'')"
proof -
  have submit: "AddOrderForm_submit accepting_env market_state filled_form
     = Handled (handleAddOrder accepting_env market_state filled_form)"
    by (simp add: AddOrderForm_submit_def App_screen_def has_error_def AddOrderForm_def
        market_state_def one_marketplace_def ready_state_def initial_state_def
        required_filled_def filled_form_def handleChange_def initial_form_def
        empty_formData_def)
  have ok: "adapter accepting_env
       (AddDoc (getOrderCollectionRef (appId accepting_env) market_state)
          (newOrder accepting_env market_state (formData filled_form))) = None"
    by (simp add: accepting_env_def accept_all_def)
  have status: "formData filled_form ''status'' = Some (JStr ''new'')"
    by (simp add: filled_form_def handleChange_def initial_form_def empty_formData_def)
  from created_status_is_form_status [of accepting_env market_state filled_form] ok status submit
  show ?thesis by simp
qed

text \<open>
  The claim as it is written has every created record start as \<open>new\<close>. With one
  linked marketplace, every required field filled in and the form's status select set
  to \<open>shipped\<close>, the submit reaches \<open>handleAddOrder\<close> and the record handed to
  \<open>addDoc\<close> has the status \<open>shipped\<close>.
\<close>

theorem order_created_as_shipped:
  "required_filled (formData shipped_form)
   \<and> formData shipped_form ''order_id'' = Some (JStr ''ML-7'')
   \<and> formData shipped_form ''status'' = Some (JStr ''shipped'')
   \<and> AddOrderForm_submit accepting_env market_state shipped_form
       = Handled (handleAddOrder accepting_env market_state shipped_form)
   \<and> created_statuses
        (adapter_calls (AddOrderForm_submit accepting_env market_state shipped_form))
       = [Some (JStr ''shipped'')]"
proof -
  have form: "required_filled (formData shipped_form)"
    "formData shipped_form ''order_id'' = Some (JStr ''ML-7'')"
    "formData shipped_form ''status'' = Some (JStr ''shipped'')"
    "isAdding shipped_form = False"
    by (simp_all add: required_filled_def shipped_form_def filled_form_def handleChange_def
        initial_form_def empty_formData_def)
  have screen: "App_screen market_state = Dashboard" "AddOrderForm market_state = OrderEntryForm"
    by (simp_all add: App_screen_def has_error_def AddOrderForm_def market_state_def
        one_marketplace_def ready_state_def initial_state_def)
  from form screen have submit: "AddOrderForm_submit accepting_env market_state shipped_form
       = Handled (handleAddOrder accepting_env market_state shipped_form)"
    by (simp add: AddOrderForm_submit_def)
  have "created_statuses (calls (handleAddOrder accepting_env market_state shipped_form))
      = [Some (JStr ''shipped'')]"
    using form(3)
    by (simp add: handleAddOrder_def created_statuses_def newOrder_def map_add_def
        accepting_env_def accept_all_def)
  with form submit show ?thesis by simp
qed

end
